theory Spec2Isabelle
  imports Complex_Main "HOL-Library.Word"
begin

section \<open>Smart Travel Scout: the search endpoint (app/api/search/route.ts)\<close>

subsection \<open>JavaScript strings\<close>

text \<open>
  A JavaScript string is a sequence of UTF-16 code units and \<open>.length\<close> counts code
  units, so a string is a list of 16-bit words. \<open>js\<close> writes an ASCII literal and
  \<open>ch\<close> one code unit; the quotation mark is \<open>0x22\<close> and the backslash \<open>0x5C\<close>.
\<close>

type_synonym jsstring = "16 word list"

definition js :: "string \<Rightarrow> jsstring" where
  "js s = map of_char s"

definition ch :: "char \<Rightarrow> 16 word" where
  "ch c = of_char c"

subsection \<open>JSON values\<close>

text \<open>
  The values \<open>JSON.parse\<close> and \<open>request.json()\<close> produce. A number is a binary64
  value: a rational, or an infinity (an overflowing literal such as \<open>1e999\<close>); NaN is
  never parsed and the sign of zero plays no part below. An object is the list of its
  own properties in the order \<open>Object.values\<close> enumerates them, keys distinct.
\<close>

datatype jsnumber = Finite rat | PosInfinity | NegInfinity

datatype json =
    JNull
  | JBool bool
  | JNumber jsnumber
  | JString jsstring
  | JArray "json list"
  | JObject "(jsstring \<times> json) list"

datatype js_error = SyntaxError | TypeError

subsection \<open>\<open>JSON.parse\<close>\<close>

text \<open>
  \<open>JSON.parse\<close> belongs to the JavaScript runtime, not to the repository. It is
  modelled by a recursive-descent parser of the JSON grammar (ECMA-404): white space is
  space, tab, line feed and carriage return; the parsing functions return \<open>None\<close>
  where the text is not JSON, and \<open>JSON_parse\<close> then returns the thrown SyntaxError. The
  value of a number literal is kept exactly, except that a literal of magnitude
  \<open>2^1024 - 2^970\<close> or more is an infinity; rounding to the nearest binary64 value is
  not modelled (it is the identity on the integers the properties use).
\<close>

definition is_ws :: "16 word \<Rightarrow> bool" where
  "is_ws c = (c = 0x20 \<or> c = 0x09 \<or> c = 0x0A \<or> c = 0x0D)"

definition skip_ws :: "jsstring \<Rightarrow> jsstring" where
  "skip_ws cs = dropWhile is_ws cs"

definition digit :: "16 word \<Rightarrow> nat option" where
  "digit c = (if 0x30 \<le> c \<and> c \<le> 0x39 then Some (unat c - 48) else None)"

definition hex_digit :: "16 word \<Rightarrow> 16 word option" where
  "hex_digit c =
     (if 0x30 \<le> c \<and> c \<le> 0x39 then Some (c - 0x30)
      else if 0x61 \<le> c \<and> c \<le> 0x66 then Some (c - 0x57)
      else if 0x41 \<le> c \<and> c \<le> 0x46 then Some (c - 0x37)
      else None)"

definition hex4 :: "16 word \<Rightarrow> 16 word \<Rightarrow> 16 word \<Rightarrow> 16 word \<Rightarrow> 16 word option" where
  "hex4 a b c d =
     (case (hex_digit a, hex_digit b, hex_digit c, hex_digit d) of
        (Some x3, Some x2, Some x1, Some x0) \<Rightarrow> Some (((x3 * 16 + x2) * 16 + x1) * 16 + x0)
      | _ \<Rightarrow> None)"

definition escape :: "16 word \<Rightarrow> 16 word option" where
  "escape e =
     (if e = 0x22 then Some 0x22
      else if e = 0x5C then Some 0x5C
      else if e = ch CHR ''/'' then Some (ch CHR ''/'')
      else if e = ch CHR ''b'' then Some 0x08
      else if e = ch CHR ''f'' then Some 0x0C
      else if e = ch CHR ''n'' then Some 0x0A
      else if e = ch CHR ''r'' then Some 0x0D
      else if e = ch CHR ''t'' then Some 0x09
      else None)"

text \<open>
  The characters of a string literal after its opening quotation mark: the decoded
  string and the text after the closing quotation mark.
\<close>

fun parse_chars :: "jsstring \<Rightarrow> (jsstring \<times> jsstring) option" where
  "parse_chars [] = None"
| "parse_chars (c # cs) =
     (if c = 0x22 then Some ([], cs)
      else if c = 0x5C then
        (case cs of
           [] \<Rightarrow> None
         | e # cs' \<Rightarrow>
             if e = ch CHR ''u'' then
               (case cs' of
                  h1 # h2 # h3 # h4 # cs'' \<Rightarrow>
                    (case hex4 h1 h2 h3 h4 of
                       None \<Rightarrow> None
                     | Some u \<Rightarrow>
                         (case parse_chars cs'' of
                            None \<Rightarrow> None
                          | Some (s, r) \<Rightarrow> Some (u # s, r)))
                | _ \<Rightarrow> None)
             else
               (case escape e of
                  None \<Rightarrow> None
                | Some x \<Rightarrow>
                    (case parse_chars cs' of
                       None \<Rightarrow> None
                     | Some (s, r) \<Rightarrow> Some (x # s, r))))
      else if c < 0x20 then None
      else (case parse_chars cs of None \<Rightarrow> None | Some (s, r) \<Rightarrow> Some (c # s, r)))"

text \<open>
  Number literals: \<open>-? (0 | [1-9][0-9]*) (. [0-9]+)? ([eE] [+-]? [0-9]+)?\<close>.
\<close>

fun digits :: "jsstring \<Rightarrow> nat list \<times> jsstring" where
  "digits [] = ([], [])"
| "digits (c # cs) =
     (case digit c of
        None \<Rightarrow> ([], c # cs)
      | Some d \<Rightarrow> (case digits cs of (ds, r) \<Rightarrow> (d # ds, r)))"

definition decimal :: "nat list \<Rightarrow> int" where
  "decimal ds = foldl (\<lambda>a d. 10 * a + int d) 0 ds"

definition int_part :: "jsstring \<Rightarrow> (int \<times> jsstring) option" where
  "int_part cs =
     (case cs of
        [] \<Rightarrow> None
      | c # r \<Rightarrow>
          if c = ch CHR ''0'' then Some (0, r)
          else (case digits (c # r) of ([], _) \<Rightarrow> None | (ds, r') \<Rightarrow> Some (decimal ds, r')))"

definition frac_part :: "jsstring \<Rightarrow> (nat list \<times> jsstring) option" where
  "frac_part cs =
     (case cs of
        [] \<Rightarrow> Some ([], [])
      | c # r \<Rightarrow>
          if c = ch CHR ''.'' then (case digits r of ([], _) \<Rightarrow> None | (ds, r') \<Rightarrow> Some (ds, r'))
          else Some ([], cs))"

definition exp_part :: "jsstring \<Rightarrow> (int \<times> jsstring) option" where
  "exp_part cs =
     (case cs of
        [] \<Rightarrow> Some (0, [])
      | c # r \<Rightarrow>
          if c = ch CHR ''e'' \<or> c = ch CHR ''E'' then
            (case (case r of
                     [] \<Rightarrow> (1, [])
                   | s # r1 \<Rightarrow> if s = ch CHR ''+'' then (1, r1)
                              else if s = ch CHR ''-'' then (-1, r1) else (1, r)) of
               (sg, r2) \<Rightarrow>
                 (case digits r2 of
                    ([], _) \<Rightarrow> None
                  | (ds, r') \<Rightarrow> Some (sg * decimal ds, r')))
          else Some (0, cs))"

definition to_number :: "rat \<Rightarrow> jsnumber" where
  "to_number q =
     (if q \<ge> 2 ^ 1024 - 2 ^ 970 then PosInfinity
      else if q \<le> - (2 ^ 1024 - 2 ^ 970) then NegInfinity
      else Finite q)"

definition parse_number :: "jsstring \<Rightarrow> (jsnumber \<times> jsstring) option" where
  "parse_number cs =
     (case (case cs of
              [] \<Rightarrow> (1, [])
            | c # r \<Rightarrow> if c = ch CHR ''-'' then (-1, r) else (1, cs)) of
        (sg, cs1) \<Rightarrow>
          (case int_part cs1 of
             None \<Rightarrow> None
           | Some (i, cs2) \<Rightarrow>
               (case frac_part cs2 of
                  None \<Rightarrow> None
                | Some (fd, cs3) \<Rightarrow>
                    (case exp_part cs3 of
                       None \<Rightarrow> None
                     | Some (ex, cs4) \<Rightarrow>
                         let m = sg * (of_int i + of_int (decimal fd) / 10 ^ length fd) in
                         Some (to_number (if ex \<ge> 0 then m * 10 ^ nat ex else m / 10 ^ nat (- ex)),
                               cs4)))))"

fun strip_prefix :: "'a list \<Rightarrow> 'a list \<Rightarrow> 'a list option" where
  "strip_prefix [] ys = Some ys"
| "strip_prefix (x # xs) [] = None"
| "strip_prefix (x # xs) (y # ys) = (if x = y then strip_prefix xs ys else None)"

text \<open>
  An object literal defines its members one after the other: a repeated key keeps its
  place and takes the later value. The own properties are enumerated with the array
  indices (canonical decimal strings below \<open>2^32 - 1\<close>) first, in ascending order,
  then the other keys in the order of their creation.
\<close>

fun set_property :: "(jsstring \<times> json) list \<Rightarrow> jsstring \<Rightarrow> json \<Rightarrow> (jsstring \<times> json) list" where
  "set_property [] k v = [(k, v)]"
| "set_property ((k', v') # ps) k v =
     (if k' = k then (k, v) # ps else (k', v') # set_property ps k v)"

definition array_index :: "jsstring \<Rightarrow> int option" where
  "array_index k =
     (case digits k of
        (d # ds, []) \<Rightarrow>
          if (d = 0 \<and> ds \<noteq> []) \<or> decimal (d # ds) \<ge> 2 ^ 32 - 1 then None
          else Some (decimal (d # ds))
      | _ \<Rightarrow> None)"

definition own_property_order :: "(jsstring \<times> json) list \<Rightarrow> (jsstring \<times> json) list" where
  "own_property_order ps =
     sort_key (\<lambda>p. the (array_index (fst p))) (filter (\<lambda>p. array_index (fst p) \<noteq> None) ps)
     @ filter (\<lambda>p. array_index (fst p) = None) ps"

text \<open>
  \<open>parse_value\<close> reads one value at the head of the text (white space skipped by the
  caller) and returns it with the rest of the text; \<open>parse_elements\<close> reads the
  elements of an array after \<open>[\<close> and \<open>parse_members\<close> the members of an object after
  \<open>{\<close>. The tests \<open>length r < length cs\<close> on the rest a nested value leaves make the
  recursion well-founded; \<open>parse_value_consumes\<close> below shows that they always hold.
\<close>

function parse_value :: "jsstring \<Rightarrow> (json \<times> jsstring) option"
  and parse_elements :: "jsstring \<Rightarrow> json list \<Rightarrow> (json \<times> jsstring) option"
  and parse_members :: "jsstring \<Rightarrow> (jsstring \<times> json) list \<Rightarrow> (json \<times> jsstring) option"
where
  "parse_value [] = None"
| "parse_value (c # r) =
     (if c = ch CHR ''['' then
        (case skip_ws r of
           [] \<Rightarrow> None
         | c' # r' \<Rightarrow> if c' = ch CHR '']'' then Some (JArray [], r') else parse_elements (skip_ws r) [])
      else if c = ch CHR ''{'' then
        (case skip_ws r of
           [] \<Rightarrow> None
         | c' # r' \<Rightarrow> if c' = ch CHR ''}'' then Some (JObject [], r') else parse_members (skip_ws r) [])
      else if c = 0x22 then
        (case parse_chars r of None \<Rightarrow> None | Some (s, r') \<Rightarrow> Some (JString s, r'))
      else if c = ch CHR ''t'' then
        (case strip_prefix (js ''rue'') r of None \<Rightarrow> None | Some r' \<Rightarrow> Some (JBool True, r'))
      else if c = ch CHR ''f'' then
        (case strip_prefix (js ''alse'') r of None \<Rightarrow> None | Some r' \<Rightarrow> Some (JBool False, r'))
      else if c = ch CHR ''n'' then
        (case strip_prefix (js ''ull'') r of None \<Rightarrow> None | Some r' \<Rightarrow> Some (JNull, r'))
      else
        (case parse_number (c # r) of None \<Rightarrow> None | Some (n, r') \<Rightarrow> Some (JNumber n, r')))"
| "parse_elements cs acc =
     (case parse_value cs of
        None \<Rightarrow> None
      | Some (v, r) \<Rightarrow>
          if length r < length cs then
            (case skip_ws r of
               [] \<Rightarrow> None
             | c # r' \<Rightarrow>
                 if c = ch CHR '','' then parse_elements (skip_ws r') (acc @ [v])
                 else if c = ch CHR '']'' then Some (JArray (acc @ [v]), r')
                 else None)
          else None)"
| "parse_members [] acc = None"
| "parse_members (q # r0) acc =
     (if q = 0x22 then
        (case parse_chars r0 of
           None \<Rightarrow> None
         | Some (k, r1) \<Rightarrow>
             (case skip_ws r1 of
                [] \<Rightarrow> None
              | c1 # r2 \<Rightarrow>
                  if c1 = ch CHR '':'' then
                    (case parse_value (skip_ws r2) of
                       None \<Rightarrow> None
                     | Some (v, r3) \<Rightarrow>
                         if length r3 < length (skip_ws r2) then
                           (case skip_ws r3 of
                              [] \<Rightarrow> None
                            | c3 # r4 \<Rightarrow>
                                if c3 = ch CHR '','' then
                                  parse_members (skip_ws r4) (set_property acc k v)
                                else if c3 = ch CHR ''}'' then
                                  Some (JObject (own_property_order (set_property acc k v)), r4)
                                else None)
                         else None)
                  else None))
      else None)"
  by pat_completeness auto
termination
proof -
  have sk: "length (skip_ws xs) \<le> length xs" for xs
    by (simp add: skip_ws_def length_dropWhile_le)
  have sk': "length ys < length xs" if "skip_ws xs = y # ys" for xs y ys
    using sk [of xs] that by simp
  have pc: "length r < length cs" if "parse_chars cs = Some (s, r)" for cs s r
    using that
  proof (induction cs arbitrary: s r rule: parse_chars.induct)
    case 1
    then show ?case by simp
  next
    case (2 c cs)
    then show ?case
      by (fastforce split: if_splits list.splits option.splits)
  qed
  show ?thesis
    apply (relation "measures [\<lambda>x. case x of Inl cs \<Rightarrow> length cs | Inr (Inl (cs, _)) \<Rightarrow> length cs
                                 | Inr (Inr (cs, _)) \<Rightarrow> length cs,
                           \<lambda>x. case x of Inl _ \<Rightarrow> 0 | Inr _ \<Rightarrow> 1]")
    subgoal by simp
    subgoal for c r x21 x22 using sk [of r] by simp
    subgoal for c r x21 x22 using sk [of r] by simp
    subgoal by simp
    subgoal for cs acc x2 x y x21 x22
      using sk' [of y x21 x22] sk [of x22] by simp
    subgoal for q r0 acc x2 x y x21 x22
      using pc [of r0 x y] sk' [of y x21 x22] sk [of x22] by auto
    subgoal for q r0 acc x2 x y x21 x22 x2a xa ya x21a x22a
      using pc [of r0 x y] sk' [of y x21 x22] sk [of x22] sk' [of ya x21a x22a] sk [of x22a]
      by auto
    done
qed

definition JSON_parse :: "jsstring \<Rightarrow> js_error + json" where
  "JSON_parse raw =
     (case parse_value (skip_ws raw) of
        None \<Rightarrow> Inl SyntaxError
      | Some (v, r) \<Rightarrow> if skip_ws r = [] then Inr v else Inl SyntaxError)"

subsection \<open>Inventory\<close>

text \<open>
  \<^verbatim>\<open>const INVENTORY = [...] as const\<close> and
  \<^verbatim>\<open>const VALID_IDS = INVENTORY.map((i) => i.id) as number[]\<close>. The field \<open>id\<close> is
  written \<open>item_id\<close> (\<open>id\<close> is the identity function of HOL).
\<close>

record item =
  item_id :: int
  title :: jsstring
  location :: jsstring
  price :: int
  tags :: "jsstring list"

definition INVENTORY :: "item list" where
  "INVENTORY =
     [\<lparr>item_id = 1, title = js ''High-Altitude Tea Trails'', location = js ''Nuwara Eliya'',
        price = 120, tags = [js ''cold'', js ''nature'', js ''hiking'']\<rparr>,
      \<lparr>item_id = 2, title = js ''Coastal Heritage Wander'', location = js ''Galle Fort'',
        price = 45, tags = [js ''history'', js ''culture'', js ''walking'']\<rparr>,
      \<lparr>item_id = 3, title = js ''Wild Safari Expedition'', location = js ''Yala'',
        price = 250, tags = [js ''animals'', js ''adventure'', js ''photography'']\<rparr>,
      \<lparr>item_id = 4, title = js ''Surf & Chill Retreat'', location = js ''Arugam Bay'',
        price = 80, tags = [js ''beach'', js ''surfing'', js ''young-vibe'']\<rparr>,
      \<lparr>item_id = 5, title = js ''Ancient City Exploration'', location = js ''Sigiriya'',
        price = 110, tags = [js ''history'', js ''climbing'', js ''view'']\<rparr>]"

definition VALID_IDS :: "int list" where
  "VALID_IDS = map item_id INVENTORY"

subsection \<open>Reading JavaScript values\<close>

text \<open>
  \<open>get_prop m k\<close> is \<open>m?.k\<close> for the keys \<open>id\<close>, \<open>reason\<close> and \<open>prompt\<close>, which no
  prototype defines: the own property of an object, and \<open>None\<close> (undefined) for every
  other value, \<open>null\<close> included. \<open>Array_includes ids x\<close> is \<open>ids.includes(x)\<close> for an array
  of integers: \<open>x\<close> is a number equal to one of them. \<open>is_integer\<close> is
  \<open>Number.isInteger\<close>.
\<close>

fun get_prop :: "json \<Rightarrow> jsstring \<Rightarrow> json option" where
  "get_prop (JObject ps) k = map_of ps k"
| "get_prop _ k = None"

definition Array_includes :: "int list \<Rightarrow> json option \<Rightarrow> bool" where
  "Array_includes ids x =
     (case x of
        Some (JNumber (Finite q)) \<Rightarrow> list_ex (\<lambda>i. of_int i = q) ids
      | _ \<Rightarrow> False)"

definition is_integer :: "jsnumber \<Rightarrow> bool" where
  "is_integer n = (case n of Finite q \<Rightarrow> of_int \<lfloor>q\<rfloor> = q | _ \<Rightarrow> False)"

subsection \<open>The zod schemas\<close>

text \<open>
  zod is a dependency of the repository; the two schemas are modelled by what zod 3
  computes for them. \<open>RequestSchema body\<close> is \<open>RequestSchema.safeParse(body)\<close> followed
  by the handler's reading of it: \<open>Inr\<close> the prompt on success, \<open>Inl\<close> the message of the
  first issue otherwise. A missing \<open>prompt\<close> takes the \<open>required_error\<close>, a value of
  another type zod's default \<open>Expected ..., received ...\<close>, then \<open>min(1)\<close> and
  \<open>max(500)\<close> are checked on the number of code units.
\<close>

fun zod_type :: "json \<Rightarrow> string" where
  "zod_type JNull = ''null''"
| "zod_type (JBool _) = ''boolean''"
| "zod_type (JNumber _) = ''number''"
| "zod_type (JString _) = ''string''"
| "zod_type (JArray _) = ''array''"
| "zod_type (JObject _) = ''object''"

definition RequestSchema :: "json \<Rightarrow> jsstring + jsstring" where
  "RequestSchema body =
     (case body of
        JObject ps \<Rightarrow>
          (case map_of ps (js ''prompt'') of
             None \<Rightarrow> Inl (js ''prompt is required'')
           | Some (JString p) \<Rightarrow>
               if length p < 1 then Inl (js ''prompt cannot be empty'')
               else if length p > 500 then Inl (js ''prompt must be 500 characters or fewer'')
               else Inr p
           | Some v \<Rightarrow> Inl (js (''Expected string, received '' @ zod_type v)))
      | _ \<Rightarrow> Inl (js (''Expected object, received '' @ zod_type body)))"

text \<open>
  An element the schema accepts, \<^verbatim>\<open>{ id: number; reason: string }\<close>; \<open>id\<close> and \<open>reason\<close>
  are written \<open>match_id\<close> and \<open>match_reason\<close>.
\<close>

record ai_match =
  match_id :: int
  match_reason :: jsstring

text \<open>
  \<open>AiMatchSchema_element\<close> is the object schema inside \<open>AiMatchSchema\<close>:
  \<open>id: z.number().int().refine((id) => VALID_IDS.includes(id))\<close> and
  \<open>reason: z.string().min(1)\<close>; other keys are stripped. \<open>AiMatchSchema candidate\<close> is
  \<open>AiMatchSchema.safeParse(candidate)\<close> for an array: \<open>Some\<close> the parsed data when
  every element passes, \<open>None\<close> on failure.
\<close>

definition AiMatchSchema_element :: "json \<Rightarrow> ai_match option" where
  "AiMatchSchema_element m =
     (case m of
        JObject ps \<Rightarrow>
          (case (map_of ps (js ''id''), map_of ps (js ''reason'')) of
             (Some (JNumber (Finite q)), Some (JString r)) \<Rightarrow>
               if is_integer (Finite q) \<and> Array_includes VALID_IDS (Some (JNumber (Finite q)))
                  \<and> length r \<ge> 1
               then Some \<lparr>match_id = \<lfloor>q\<rfloor>, match_reason = r\<rparr>
               else None
           | _ \<Rightarrow> None)
      | _ \<Rightarrow> None)"

definition AiMatchSchema :: "json list \<Rightarrow> ai_match list option" where
  "AiMatchSchema candidate =
     (if list_all (\<lambda>m. AiMatchSchema_element m \<noteq> None) candidate
      then Some (map (\<lambda>m. the (AiMatchSchema_element m)) candidate)
      else None)"

subsection \<open>The rate limiter\<close>

text \<open>
  \<^verbatim>\<open>const RATE_LIMIT = 5\<close>, \<^verbatim>\<open>const RATE_WINDOW_MS = 60_000\<close> and
  \<^verbatim>\<open>const ipRequestMap = new Map<string, { count: number; windowStart: number }>()\<close>.
  \<open>Date.now()\<close> is an integer number of milliseconds.
\<close>

definition RATE_LIMIT :: int where
  "RATE_LIMIT = 5"

definition RATE_WINDOW_MS :: int where
  "RATE_WINDOW_MS = 60000"

record entry =
  count :: int
  windowStart :: int

type_synonym ipRequestMap = "jsstring \<rightharpoonup> entry"

text \<open>
  \<open>isRateLimited ip\<close>, with the value \<open>now\<close> that \<open>Date.now()\<close> returns and the map
  passed in and returned. The result \<open>True\<close> is "rate limited", that is not allowed.
\<close>

definition isRateLimited :: "jsstring \<Rightarrow> int \<Rightarrow> ipRequestMap \<Rightarrow> bool \<times> ipRequestMap" where
  "isRateLimited ip now m =
     (case m ip of
        None \<Rightarrow> (False, m(ip \<mapsto> \<lparr>count = 1, windowStart = now\<rparr>))
      | Some e \<Rightarrow>
          if now - windowStart e > RATE_WINDOW_MS
          then (False, m(ip \<mapsto> \<lparr>count = 1, windowStart = now\<rparr>))
          else if count e \<ge> RATE_LIMIT then (True, m)
          else (False, m(ip \<mapsto> e\<lparr>count := count e + 1\<rparr>)))"

text \<open>
  Consecutive calls of \<open>isRateLimited\<close> for one client, one for each clock reading
  of the list: the answers in call order and the map after the last call.
\<close>

fun calls :: "jsstring \<Rightarrow> int list \<Rightarrow> ipRequestMap \<Rightarrow> bool list \<times> ipRequestMap" where
  "calls ip [] m = ([], m)"
| "calls ip (t # ts) m =
     (case isRateLimited ip t m of
        (limited, m') \<Rightarrow> (case calls ip ts m' of (rest, m'') \<Rightarrow> (limited # rest, m'')))"

subsection \<open>The sanitizer (step 4 of the handler)\<close>

text \<open>
  \<open>Object.values\<close> throws a TypeError on \<open>null\<close>, gives no value for a boolean or a
  number, the one-unit strings of a string and the property values of an object in
  enumeration order. \<open>candidate_of\<close> is
  \<^verbatim>\<open>Array.isArray(jsonParsed) ? jsonParsed : (Object.values(jsonParsed).find(Array.isArray) ?? [])\<close>.
\<close>

fun Object_values :: "json \<Rightarrow> js_error + json list" where
  "Object_values JNull = Inl TypeError"
| "Object_values (JBool _) = Inr []"
| "Object_values (JNumber _) = Inr []"
| "Object_values (JString s) = Inr (map (\<lambda>c. JString [c]) s)"
| "Object_values (JArray xs) = Inr xs"
| "Object_values (JObject ps) = Inr (map snd ps)"

fun isArray :: "json \<Rightarrow> bool" where
  "isArray (JArray _) = True"
| "isArray _ = False"

definition candidate_of :: "json \<Rightarrow> js_error + json list" where
  "candidate_of jsonParsed =
     (case jsonParsed of
        JArray xs \<Rightarrow> Inr xs
      | _ \<Rightarrow>
          (case Object_values jsonParsed of
             Inl e \<Rightarrow> Inl e
           | Inr vs \<Rightarrow>
               (case find isArray vs of
                  Some (JArray xs) \<Rightarrow> Inr xs
                | _ \<Rightarrow> Inr [])))"

text \<open>
  The candidate list as section 4.6 of the specification words it, to compare with
  \<open>candidate_of\<close>: the array itself; for an object the first of its values that is an
  array; otherwise the empty list.
\<close>

definition spec_candidate :: "json \<Rightarrow> json list" where
  "spec_candidate v =
     (case v of
        JArray xs \<Rightarrow> xs
      | JObject ps \<Rightarrow> (case find isArray (map snd ps) of Some (JArray xs) \<Rightarrow> xs | _ \<Rightarrow> [])
      | _ \<Rightarrow> [])"

text \<open>
  The fallback filter \<^verbatim>\<open>(m) => VALID_IDS.includes(m?.id) && typeof m?.reason === 'string'\<close>,
  and the element it keeps read at the type \<^verbatim>\<open>{ id: number; reason: string }\<close> the source
  casts it to (\<open>lenient_as_match\<close> below: a kept element has exactly these two values).
\<close>

definition lenient :: "json \<Rightarrow> bool" where
  "lenient m =
     (Array_includes VALID_IDS (get_prop m (js ''id''))
      \<and> (case get_prop m (js ''reason'') of Some (JString _) \<Rightarrow> True | _ \<Rightarrow> False))"

definition as_match :: "json \<Rightarrow> ai_match" where
  "as_match m =
     \<lparr>match_id = (case get_prop m (js ''id'') of Some (JNumber (Finite q)) \<Rightarrow> \<lfloor>q\<rfloor> | _ \<Rightarrow> 0),
      match_reason = (case get_prop m (js ''reason'') of Some (JString r) \<Rightarrow> r | _ \<Rightarrow> [])\<rparr>"

text \<open>
  The body of the \<open>try\<close> block: parse, choose the candidate, validate strictly and
  fall back to the filter. \<open>sanitize\<close> adds the \<open>catch\<close>, which turns every exception
  into the empty list.
\<close>

definition validate_candidate :: "json list \<Rightarrow> ai_match list" where
  "validate_candidate candidate =
     (case AiMatchSchema candidate of
        Some validated \<Rightarrow> validated
      | None \<Rightarrow> map as_match (filter lenient candidate))"

definition try_sanitize :: "jsstring \<Rightarrow> js_error + ai_match list" where
  "try_sanitize rawContent =
     (case JSON_parse rawContent of
        Inl e \<Rightarrow> Inl e
      | Inr jsonParsed \<Rightarrow>
          (case candidate_of jsonParsed of
             Inl e \<Rightarrow> Inl e
           | Inr candidate \<Rightarrow> Inr (validate_candidate candidate)))"

definition sanitize :: "jsstring \<Rightarrow> ai_match list" where
  "sanitize rawContent = (case try_sanitize rawContent of Inl _ \<Rightarrow> [] | Inr aiMatches \<Rightarrow> aiMatches)"

subsection \<open>The result assembler (step 5 of the handler)\<close>

text \<open>
  \<open>to_result\<close> is the function mapped over \<open>aiMatches\<close>: it finds the first inventory
  item with the match's id and returns \<^verbatim>\<open>{ ...item, reason }\<close>, or \<open>null\<close> (\<open>None\<close>);
  \<open>.filter(Boolean)\<close> then drops the nulls.
\<close>

record result = item +
  reason :: jsstring

definition to_result :: "ai_match \<Rightarrow> result option" where
  "to_result m =
     (case find (\<lambda>inv. item_id inv = match_id m) INVENTORY of
        None \<Rightarrow> None
      | Some it \<Rightarrow>
          Some \<lparr>item_id = item_id it, title = title it, location = location it,
                price = price it, tags = tags it, reason = match_reason m\<rparr>)"

definition assemble :: "ai_match list \<Rightarrow> result list" where
  "assemble aiMatches = map the (filter (\<lambda>r. r \<noteq> None) (map to_result aiMatches))"

subsection \<open>The handler \<open>POST\<close>\<close>

text \<open>
  The client is \<^verbatim>\<open>request.headers.get('x-forwarded-for')?.split(',')[0].trim() ??
  request.headers.get('x-real-ip') ?? 'unknown'\<close>; \<open>trim\<close> removes the white space and
  line terminators of ECMAScript at both ends.
\<close>

definition is_space :: "16 word \<Rightarrow> bool" where
  "is_space c =
     (c \<in> set [0x09, 0x0A, 0x0B, 0x0C, 0x0D, 0x20, 0xA0, 0x1680, 0x2028, 0x2029, 0x202F,
                0x205F, 0x3000, 0xFEFF]
      \<or> (0x2000 \<le> c \<and> c \<le> 0x200A))"

definition trim :: "jsstring \<Rightarrow> jsstring" where
  "trim s = rev (dropWhile is_space (rev (dropWhile is_space s)))"

text \<open>
  What the handler reads of a request: the two headers (\<open>None\<close> when absent) and the
  outcome of \<open>request.json()\<close> (\<open>None\<close> when it rejects; the handler then takes \<open>{}\<close>).
\<close>

record request =
  x_forwarded_for :: "jsstring option"
  x_real_ip :: "jsstring option"
  json_body :: "json option"

definition client_ip :: "request \<Rightarrow> jsstring" where
  "client_ip req =
     (case x_forwarded_for req of
        Some h \<Rightarrow> trim (takeWhile (\<lambda>c. c \<noteq> ch CHR '','') h)
      | None \<Rightarrow> (case x_real_ip req of Some r \<Rightarrow> r | None \<Rightarrow> js ''unknown''))"

text \<open>
  The Gemini call is an external service. \<open>generateContent\<close> maps the prompt to what
  the single call does: \<open>response.text\<close> is a string or is undefined (the handler then
  takes \<open>'[]'\<close>), or the call throws an \<open>Error\<close> with a message, or something else.
  A response is \<open>{ results }\<close> with status 200 or \<open>{ error }\<close> with its status. The
  outcome of a call of the handler is its response, the rate limiter's map after it
  and the prompts passed to the gateway.
\<close>

datatype gateway = Text jsstring | NoText | ThrowsError jsstring | ThrowsOther

datatype response = Results "result list" | Error nat jsstring

record outcome =
  response :: response
  limiter :: ipRequestMap
  gateway_calls :: "jsstring list"

definition POST :: "(jsstring \<Rightarrow> gateway) \<Rightarrow> int \<Rightarrow> request \<Rightarrow> ipRequestMap \<Rightarrow> outcome" where
  "POST generateContent now req m =
     (let ip = client_ip req in
      case isRateLimited ip now m of
        (True, m') \<Rightarrow>
          \<lparr>response = Error 429 (js ''Too many requests. Please wait a moment before trying again.''),
           limiter = m', gateway_calls = []\<rparr>
      | (False, m') \<Rightarrow>
          let body = (case json_body req of None \<Rightarrow> JObject [] | Some b \<Rightarrow> b) in
          (case RequestSchema body of
             Inl message \<Rightarrow> \<lparr>response = Error 400 message, limiter = m', gateway_calls = []\<rparr>
           | Inr prompt \<Rightarrow>
               (case generateContent prompt of
                  ThrowsError message \<Rightarrow>
                    \<lparr>response = Error 500 message, limiter = m', gateway_calls = [prompt]\<rparr>
                | ThrowsOther \<Rightarrow>
                    \<lparr>response = Error 500 (js ''Internal server error''), limiter = m',
                     gateway_calls = [prompt]\<rparr>
                | Text t \<Rightarrow>
                    \<lparr>response = Results (assemble (sanitize t)), limiter = m',
                     gateway_calls = [prompt]\<rparr>
                | NoText \<Rightarrow>
                    \<lparr>response = Results (assemble (sanitize (js ''[]''))), limiter = m',
                     gateway_calls = [prompt]\<rparr>)))"

section \<open>Properties\<close>

subsection \<open>Rate limiter\<close>

lemma isRateLimited_fresh:
  "m ip = None \<Longrightarrow> isRateLimited ip t m = (False, m(ip \<mapsto> \<lparr>count = 1, windowStart = t\<rparr>))"
  by (simp add: isRateLimited_def)

lemma isRateLimited_expired:
  "m ip = Some e \<Longrightarrow> t - windowStart e > RATE_WINDOW_MS \<Longrightarrow>
   isRateLimited ip t m = (False, m(ip \<mapsto> \<lparr>count = 1, windowStart = t\<rparr>))"
  by (simp add: isRateLimited_def)

lemma isRateLimited_incr:
  "m ip = Some \<lparr>count = c, windowStart = w\<rparr> \<Longrightarrow> t - w \<le> RATE_WINDOW_MS \<Longrightarrow> c < RATE_LIMIT \<Longrightarrow>
   isRateLimited ip t m = (False, m(ip \<mapsto> \<lparr>count = c + 1, windowStart = w\<rparr>))"
  by (simp add: isRateLimited_def)

lemma isRateLimited_full:
  "m ip = Some e \<Longrightarrow> \<not> t - windowStart e > RATE_WINDOW_MS \<Longrightarrow> count e \<ge> RATE_LIMIT \<Longrightarrow>
   isRateLimited ip t m = (True, m)"
  by (simp add: isRateLimited_def)

text \<open>
  C4. Starting from a map with no entry for the client, six consecutive calls at clock
  readings \<open>t1, ..., t6\<close>, the later five no more than 60000 ms after the first, answer
  allowed five times and then not allowed (\<open>isRateLimited\<close> returns \<open>True\<close>). A further
  call at a reading \<open>t7\<close> more than 60000 ms after \<open>t1\<close> is allowed and leaves the
  client's entry at count 1 with \<open>windowStart = t7\<close>.
\<close>

theorem rate_limiter_window:
  assumes fresh: "m ip = None"
    and within: "\<forall>t \<in> set [t2, t3, t4, t5, t6]. t - t1 \<le> RATE_WINDOW_MS"
    and after: "t7 - t1 > RATE_WINDOW_MS"
  shows "fst (calls ip [t1, t2, t3, t4, t5, t6] m) = [False, False, False, False, False, True]
       \<and> isRateLimited ip t7 (snd (calls ip [t1, t2, t3, t4, t5, t6] m))
         = (False, (snd (calls ip [t1, t2, t3, t4, t5, t6] m))(ip \<mapsto> \<lparr>count = 1, windowStart = t7\<rparr>))"
proof -
  let ?e = "\<lambda>c. \<lparr>count = c, windowStart = t1\<rparr>"
  have w: "t2 - t1 \<le> RATE_WINDOW_MS" "t3 - t1 \<le> RATE_WINDOW_MS" "t4 - t1 \<le> RATE_WINDOW_MS"
    "t5 - t1 \<le> RATE_WINDOW_MS" "t6 - t1 \<le> RATE_WINDOW_MS"
    using within by simp_all
  have s1: "isRateLimited ip t1 m = (False, m(ip \<mapsto> ?e 1))"
    using fresh by (rule isRateLimited_fresh)
  have s2: "isRateLimited ip t2 (m(ip \<mapsto> ?e 1)) = (False, m(ip \<mapsto> ?e 2))"
    using isRateLimited_incr [of "m(ip \<mapsto> ?e 1)" ip 1 t1 t2] w by (simp add: RATE_LIMIT_def)
  have s3: "isRateLimited ip t3 (m(ip \<mapsto> ?e 2)) = (False, m(ip \<mapsto> ?e 3))"
    using isRateLimited_incr [of "m(ip \<mapsto> ?e 2)" ip 2 t1 t3] w by (simp add: RATE_LIMIT_def)
  have s4: "isRateLimited ip t4 (m(ip \<mapsto> ?e 3)) = (False, m(ip \<mapsto> ?e 4))"
    using isRateLimited_incr [of "m(ip \<mapsto> ?e 3)" ip 3 t1 t4] w by (simp add: RATE_LIMIT_def)
  have s5: "isRateLimited ip t5 (m(ip \<mapsto> ?e 4)) = (False, m(ip \<mapsto> ?e 5))"
    using isRateLimited_incr [of "m(ip \<mapsto> ?e 4)" ip 4 t1 t5] w by (simp add: RATE_LIMIT_def)
  have s6: "isRateLimited ip t6 (m(ip \<mapsto> ?e 5)) = (True, m(ip \<mapsto> ?e 5))"
    using isRateLimited_full [of "m(ip \<mapsto> ?e 5)" ip "?e 5" t6] w by (simp add: RATE_LIMIT_def)
  have run: "calls ip [t1, t2, t3, t4, t5, t6] m
             = ([False, False, False, False, False, True], m(ip \<mapsto> ?e 5))"
    by (simp add: s1 s2 s3 s4 s5 s6)
  have "isRateLimited ip t7 (m(ip \<mapsto> ?e 5))
        = (False, (m(ip \<mapsto> ?e 5))(ip \<mapsto> \<lparr>count = 1, windowStart = t7\<rparr>))"
    using isRateLimited_expired [of "m(ip \<mapsto> ?e 5)" ip "?e 5" t7] after by simp
  then show ?thesis
    by (simp only: run fst_conv snd_conv simp_thms)
qed

theorem rate_limiter_window_witness:
  "Map.empty (js ''203.0.113.7'') = (None :: entry option)
   \<and> (60000 :: int) - 0 \<le> RATE_WINDOW_MS
   \<and> (60001 :: int) - 0 > RATE_WINDOW_MS
   \<and> fst (calls (js ''203.0.113.7'') [0, 10, 20, 30, 40, 60000] Map.empty)
       = [False, False, False, False, False, True]
   \<and> fst (isRateLimited (js ''203.0.113.7'') 60001
            (snd (calls (js ''203.0.113.7'') [0, 10, 20, 30, 40, 60000] Map.empty))) = False"
  using rate_limiter_window [where m = Map.empty and ip = "js ''203.0.113.7''" and ?t1.0 = 0
      and ?t2.0 = 10 and ?t3.0 = 20 and ?t4.0 = 30 and ?t5.0 = 40 and ?t6.0 = 60000 and ?t7.0 = 60001]
  by (simp add: RATE_WINDOW_MS_def)

text \<open>
  C5. When the client's entry is inside its window (\<open>now - windowStart\<close> does not exceed
  60000) and its count has reached the limit, \<open>isRateLimited\<close> answers \<open>True\<close> (not
  allowed) and returns the map it was given: no entry of any client changes.
\<close>

theorem rejection_leaves_map:
  assumes "m ip = Some e"
    and "\<not> now - windowStart e > RATE_WINDOW_MS"
    and "count e \<ge> RATE_LIMIT"
  shows "isRateLimited ip now m = (True, m)"
  using assms by (simp add: isRateLimited_def)

theorem rejection_leaves_map_witness:
  "[js ''a'' \<mapsto> \<lparr>count = 5, windowStart = 100\<rparr>, js ''b'' \<mapsto> \<lparr>count = 2, windowStart = 7\<rparr>] (js ''a'')
     = Some \<lparr>count = 5, windowStart = 100\<rparr>
   \<and> 60100 - windowStart \<lparr>count = 5, windowStart = 100\<rparr> \<le> RATE_WINDOW_MS
   \<and> count \<lparr>count = 5, windowStart = 100\<rparr> \<ge> RATE_LIMIT
   \<and> isRateLimited (js ''a'') 60100
        [js ''a'' \<mapsto> \<lparr>count = 5, windowStart = 100\<rparr>, js ''b'' \<mapsto> \<lparr>count = 2, windowStart = 7\<rparr>]
       = (True, [js ''a'' \<mapsto> \<lparr>count = 5, windowStart = 100\<rparr>, js ''b'' \<mapsto> \<lparr>count = 2, windowStart = 7\<rparr>])"
  using rejection_leaves_map [where ip = "js ''a''" and now = 60100
      and e = "\<lparr>count = 5, windowStart = 100\<rparr>"
      and m = "[js ''a'' \<mapsto> \<lparr>count = 5, windowStart = 100\<rparr>, js ''b'' \<mapsto> \<lparr>count = 2, windowStart = 7\<rparr>]"]
  by (simp add: RATE_WINDOW_MS_def RATE_LIMIT_def js_def)


subsection \<open>Evaluation on concrete inputs\<close>

text \<open>The definitions the simplifier unfolds to run the parser, the sanitizer and the handler.\<close>

lemmas parser_eval = js_def ch_def JSON_parse_def skip_ws_def is_ws_def digit_def hex_digit_def
  hex4_def escape_def decimal_def int_part_def frac_part_def exp_part_def to_number_def
  parse_number_def array_index_def own_property_order_def

lemmas sanitize_eval = sanitize_def try_sanitize_def candidate_of_def validate_candidate_def
  AiMatchSchema_def AiMatchSchema_element_def lenient_def as_match_def Array_includes_def
  is_integer_def VALID_IDS_def INVENTORY_def

lemmas handler_eval = POST_def client_ip_def isRateLimited_def RequestSchema_def assemble_def
  to_result_def RATE_LIMIT_def RATE_WINDOW_MS_def trim_def is_space_def

subsection \<open>The parser consumes its input\<close>

text \<open>
  Every value the parser reads is at least one code unit long, so the length tests in
  \<open>parse_elements\<close> and \<open>parse_members\<close> never fail: both functions satisfy the
  equations of plain recursive descent.
\<close>

lemma skip_ws_length: "length (skip_ws cs) \<le> length cs"
  by (simp add: skip_ws_def length_dropWhile_le)

lemma skip_ws_Cons_length: "skip_ws cs = c # r \<Longrightarrow> length r < length cs"
  using skip_ws_length [of cs] by simp

lemma parse_chars_consumes: "parse_chars cs = Some (s, r) \<Longrightarrow> length r < length cs"
proof (induction cs arbitrary: s r rule: parse_chars.induct)
  case 1
  then show ?case by simp
next
  case (2 c cs)
  then show ?case
    by (fastforce split: if_splits list.splits option.splits)
qed

lemma digits_length: "digits cs = (ds, r) \<Longrightarrow> length ds + length r = length cs"
  by (induction cs arbitrary: ds r) (auto split: option.splits prod.splits)

lemma strip_prefix_length: "strip_prefix xs ys = Some r \<Longrightarrow> length r \<le> length ys"
  by (induction xs ys rule: strip_prefix.induct) (auto split: if_splits)

lemma digits_le: "digits cs = (ds, r) \<Longrightarrow> length r \<le> length cs"
  using digits_length [of cs ds r] by simp

lemma digits_less: "digits cs = (d # ds, r) \<Longrightarrow> length r < length cs"
  using digits_length [of cs "d # ds" r] by simp

lemma int_part_consumes: "int_part cs = Some (i, r) \<Longrightarrow> length r < length cs"
  by (auto simp: int_part_def simp del: digits.simps
      split: list.splits if_splits prod.splits dest: digits_less)

lemma frac_part_length: "frac_part cs = Some (fd, r) \<Longrightarrow> length r \<le> length cs"
  by (auto simp: frac_part_def simp del: digits.simps
      split: list.splits if_splits prod.splits dest!: digits_le)

lemma exp_part_length: "exp_part cs = Some (ex, r) \<Longrightarrow> length r \<le> length cs"
  by (auto simp: exp_part_def simp del: digits.simps
      split: list.splits if_splits prod.splits dest!: digits_le)

lemma parse_number_consumes:
  assumes "parse_number cs = Some (n, r)"
  shows "length r < length cs"
proof -
  obtain sg cs1 where s: "(case cs of [] \<Rightarrow> (1, []) | c # r \<Rightarrow> if c = ch CHR ''-'' then (- 1, r) else (1 :: rat, cs)) = (sg, cs1)"
    by (cases "(case cs of [] \<Rightarrow> (1, []) | c # r \<Rightarrow> if c = ch CHR ''-'' then (- 1, r) else (1 :: rat, cs))") auto
  then have l1: "length cs1 \<le> length cs"
    by (auto split: list.splits if_splits)
  from assms s obtain i cs2 fd cs3 ex where "int_part cs1 = Some (i, cs2)"
    "frac_part cs2 = Some (fd, cs3)" "exp_part cs3 = Some (ex, r)"
    by (auto simp: parse_number_def Let_def split: option.splits prod.splits)
  then have "length cs2 < length cs1" "length cs3 \<le> length cs2" "length r \<le> length cs3"
    using int_part_consumes frac_part_length exp_part_length by blast+
  with l1 show ?thesis by linarith
qed

lemma parse_consumes:
  "parse_value cs = Some (v, r) \<Longrightarrow> length r < length cs"
  "parse_elements cs acc = Some (v, r) \<Longrightarrow> length r < length cs"
  "parse_members cs ps = Some (v, r) \<Longrightarrow> length r < length cs"
proof (induction cs and cs acc and cs ps arbitrary: v r and v r and v r
    rule: parse_value_parse_elements_parse_members.induct)
  case 1
  then show ?case by simp
next
  case (2 c r0)
  have sk: "length (skip_ws r0) \<le> length r0" by (rule skip_ws_length)
  consider (arr) "c = ch CHR ''[''" | (obj) "c \<noteq> ch CHR ''[''" "c = ch CHR ''{''"
    | (other) "c \<noteq> ch CHR ''[''" "c \<noteq> ch CHR ''{''"
    by blast
  then show ?case
  proof cases
    case arr
    show ?thesis
    proof (cases "skip_ws r0")
      case Nil
      with arr "2.prems" show ?thesis by (simp del: parse_elements.simps parse_members.simps)
    next
      case (Cons c' r')
      show ?thesis
      proof (cases "c' = ch CHR '']''")
        case True
        with arr Cons "2.prems" have "r = r'" by (simp del: parse_elements.simps parse_members.simps)
        with Cons sk show ?thesis by simp
      next
        case False
        with arr Cons "2.prems" have "parse_elements (skip_ws r0) [] = Some (v, r)"
          by (simp del: parse_elements.simps)
        from "2.IH"(1) [OF arr Cons False this] sk show ?thesis by simp
      qed
    qed
  next
    case obj
    show ?thesis
    proof (cases "skip_ws r0")
      case Nil
      with obj "2.prems" show ?thesis by (simp del: parse_elements.simps parse_members.simps)
    next
      case (Cons c' r')
      show ?thesis
      proof (cases "c' = ch CHR ''}''")
        case True
        with obj Cons "2.prems" have "r = r'" by (simp del: parse_elements.simps parse_members.simps)
        with Cons sk show ?thesis by simp
      next
        case False
        with obj Cons "2.prems" have "parse_members (skip_ws r0) [] = Some (v, r)"
          by (simp del: parse_members.simps)
        from "2.IH"(2) [OF obj Cons False this] sk show ?thesis by simp
      qed
    qed
  next
    case other
    with "2.prems" show ?thesis
      by (auto simp del: parse_elements.simps parse_members.simps
          split: if_splits option.splits
          dest!: parse_chars_consumes strip_prefix_length parse_number_consumes)
  qed
next
  case (3 cs acc)
  note p = "3.prems" [unfolded parse_elements.simps [of cs acc]]
  from p obtain v1 r1 where pv: "parse_value cs = Some (v1, r1)" and lt: "length r1 < length cs"
    and rest: "(case skip_ws r1 of
               [] \<Rightarrow> None
             | c # r' \<Rightarrow>
                 if c = ch CHR '','' then parse_elements (skip_ws r') (acc @ [v1])
                 else if c = ch CHR '']'' then Some (JArray (acc @ [v1]), r')
                 else None) = Some (v, r)"
    by (auto simp del: parse_value.simps parse_elements.simps parse_members.simps
        split: option.splits if_splits)
  show ?case
  proof (cases "skip_ws r1")
    case Nil
    with rest show ?thesis by (simp del: parse_value.simps parse_elements.simps parse_members.simps)
  next
    case (Cons c r')
    then have r': "length r' < length r1" by (rule skip_ws_Cons_length)
    show ?thesis
    proof (cases "c = ch CHR '',''")
      case True
      with rest Cons have "parse_elements (skip_ws r') (acc @ [v1]) = Some (v, r)"
        by (simp del: parse_value.simps parse_elements.simps parse_members.simps)
      from "3.IH"(2) [OF pv refl lt Cons True this] skip_ws_length [of r'] r' lt
      show ?thesis by simp
    next
      case False
      with rest Cons have "r = r'"
        by (simp del: parse_value.simps parse_elements.simps parse_members.simps split: if_splits)
      with r' lt show ?thesis by simp
    qed
  qed
next
  case (4 acc)
  then show ?case by simp
next
  case (5 q r0 acc)
  note p = "5.prems" [unfolded parse_members.simps(2) [of q r0 acc]]
  from p obtain k r1 c1 r2 v1 r3 where q: "q = 0x22" and pc: "parse_chars r0 = Some (k, r1)"
    and s1: "skip_ws r1 = c1 # r2" and c1: "c1 = ch CHR '':''"
    and pv: "parse_value (skip_ws r2) = Some (v1, r3)" and lt: "length r3 < length (skip_ws r2)"
    and rest: "(case skip_ws r3 of
                  [] \<Rightarrow> None
                | c3 # r4 \<Rightarrow>
                    if c3 = ch CHR '','' then parse_members (skip_ws r4) (set_property acc k v1)
                    else if c3 = ch CHR ''}'' then
                      Some (JObject (own_property_order (set_property acc k v1)), r4)
                    else None) = Some (v, r)"
    by (auto simp del: parse_value.simps parse_elements.simps parse_members.simps
        split: option.splits if_splits list.splits)
  have l3: "length r3 < length r0"
    using parse_chars_consumes [OF pc] skip_ws_Cons_length [OF s1] skip_ws_length [of r2] lt
    by linarith
  show ?case
  proof (cases "skip_ws r3")
    case Nil
    with rest show ?thesis by (simp del: parse_value.simps parse_elements.simps parse_members.simps)
  next
    case (Cons c3 r4)
    then have r4: "length r4 < length r3" by (rule skip_ws_Cons_length)
    show ?thesis
    proof (cases "c3 = ch CHR '',''")
      case True
      with rest Cons have "parse_members (skip_ws r4) (set_property acc k v1) = Some (v, r)"
        by (simp del: parse_value.simps parse_elements.simps parse_members.simps)
      from "5.IH"(2) [OF q pc refl s1 c1 pv refl lt Cons True this] skip_ws_length [of r4] r4 l3
      show ?thesis by simp
    next
      case False
      with rest Cons have "r = r4"
        by (simp del: parse_value.simps parse_elements.simps parse_members.simps split: if_splits)
      with r4 l3 show ?thesis by simp
    qed
  qed
qed

lemma parse_value_consumes: "parse_value cs = Some (v, r) \<Longrightarrow> length r < length cs"
  by (rule parse_consumes(1))

lemma parse_elements_unguarded:
  "parse_elements cs acc =
     (case parse_value cs of
        None \<Rightarrow> None
      | Some (v, r) \<Rightarrow>
          (case skip_ws r of
             [] \<Rightarrow> None
           | c # r' \<Rightarrow>
               if c = ch CHR '','' then parse_elements (skip_ws r') (acc @ [v])
               else if c = ch CHR '']'' then Some (JArray (acc @ [v]), r')
               else None))"
proof (cases "parse_value cs")
  case None
  then show ?thesis
    by (subst parse_elements.simps) (simp del: parse_value.simps parse_elements.simps)
next
  case (Some p)
  obtain v r where p: "p = (v, r)" by (cases p)
  with Some have "length r < length cs" by (simp add: parse_value_consumes)
  with Some p show ?thesis
    by (subst parse_elements.simps) (simp del: parse_value.simps parse_elements.simps)
qed

lemma parse_members_unguarded:
  "parse_members (q # r0) acc =
     (if q = 0x22 then
        (case parse_chars r0 of
           None \<Rightarrow> None
         | Some (k, r1) \<Rightarrow>
             (case skip_ws r1 of
                [] \<Rightarrow> None
              | c1 # r2 \<Rightarrow>
                  if c1 = ch CHR '':'' then
                    (case parse_value (skip_ws r2) of
                       None \<Rightarrow> None
                     | Some (v, r3) \<Rightarrow>
                         (case skip_ws r3 of
                            [] \<Rightarrow> None
                          | c3 # r4 \<Rightarrow>
                              if c3 = ch CHR '','' then
                                parse_members (skip_ws r4) (set_property acc k v)
                              else if c3 = ch CHR ''}'' then
                                Some (JObject (own_property_order (set_property acc k v)), r4)
                              else None))
                  else None))
      else None)"
  by (auto simp del: parse_value.simps parse_elements.simps
      split: option.splits list.splits dest: parse_value_consumes)

text \<open>
  Some texts and their values: numbers, escapes, a repeated key and an array index among
  the keys, white space, and texts that are not JSON.
\<close>

lemma JSON_parse_examples:
  \<open>JSON_parse (js '' [1, -2.5e1, 0.5, true, false, null, "a/b"] '')
     = Inr (JArray [JNumber (Finite 1), JNumber (Finite (- 25)), JNumber (Finite (1 / 2)),
                    JBool True, JBool False, JNull, JString (js ''a/b'')])\<close>
  \<open>JSON_parse (js ''{"b":1,"7":2,"b":3}'')
     = Inr (JObject [(js ''7'', JNumber (Finite 2)), (js ''b'', JNumber (Finite 3))])\<close>
  \<open>JSON_parse (js ''"x'' @ [0x5C] @ js ''u0041'' @ [0x5C] @ js ''n"'') = Inr (JString [0x78, 0x41, 0x0A])\<close>
  \<open>JSON_parse (js ''1e999'') = Inr (JNumber PosInfinity)\<close>
  \<open>JSON_parse (js ''[1,]'') = Inl SyntaxError\<close>
  \<open>JSON_parse (js ''{"a":1,}'') = Inl SyntaxError\<close>
  \<open>JSON_parse (js ''01'') = Inl SyntaxError\<close>
  \<open>JSON_parse (js ''[] []'') = Inl SyntaxError\<close>
  \<open>JSON_parse [] = Inl SyntaxError\<close>
  by (simp_all add: parser_eval)

subsection \<open>The whitelist of inventory ids\<close>

lemma Array_includes_floor:
  "Array_includes ids (Some (JNumber (Finite q))) \<Longrightarrow> \<lfloor>q\<rfloor> \<in> set ids"
  by (auto simp: Array_includes_def list_ex_iff)

lemma Array_includes_cases:
  "Array_includes ids x \<Longrightarrow> \<exists>i \<in> set ids. x = Some (JNumber (Finite (of_int i)))"
  by (auto simp: Array_includes_def list_ex_iff split: option.splits json.splits jsnumber.splits)

lemma AiMatchSchema_element_Some:
  assumes "AiMatchSchema_element m = Some a"
  shows "match_id a \<in> set VALID_IDS \<and> match_reason a \<noteq> []"
  using assms
  by (auto simp: AiMatchSchema_element_def Array_includes_floor
      split: json.splits option.splits jsnumber.splits if_splits)

lemma lenient_as_match:
  assumes "lenient m"
  shows "get_prop m (js ''id'') = Some (JNumber (Finite (of_int (match_id (as_match m)))))
         \<and> get_prop m (js ''reason'') = Some (JString (match_reason (as_match m)))
         \<and> match_id (as_match m) \<in> set VALID_IDS"
  using assms
  by (auto simp: lenient_def as_match_def dest!: Array_includes_cases
      split: option.splits json.splits)

lemma validate_candidate_ids:
  assumes "a \<in> set (validate_candidate c)"
  shows "match_id a \<in> set VALID_IDS"
proof (cases "AiMatchSchema c")
  case None
  with assms obtain m where "m \<in> set c" "lenient m" "a = as_match m"
    by (auto simp: validate_candidate_def)
  then show ?thesis using lenient_as_match by blast
next
  case (Some ms)
  with assms have "a \<in> set ms" by (simp add: validate_candidate_def)
  with Some obtain m where "m \<in> set c" "AiMatchSchema_element m \<noteq> None" "a = the (AiMatchSchema_element m)"
    by (auto simp: AiMatchSchema_def list_all_iff split: if_splits)
  then show ?thesis using AiMatchSchema_element_Some by fastforce
qed

lemma sanitize_ids:
  "a \<in> set (sanitize raw) \<Longrightarrow> match_id a \<in> set VALID_IDS"
  by (auto simp: sanitize_def try_sanitize_def validate_candidate_ids split: sum.splits)

lemma to_result_Some:
  assumes "to_result m = Some r"
  shows "item_id r = match_id m \<and> reason r = match_reason m \<and> match_id m \<in> set VALID_IDS"
proof -
  from assms obtain it where f: "find (\<lambda>inv. item_id inv = match_id m) INVENTORY = Some it"
    and r: "r = \<lparr>item_id = item_id it, title = title it, location = location it,
                price = price it, tags = tags it, reason = match_reason m\<rparr>"
    by (auto simp: to_result_def split: option.splits)
  from f have "item_id it = match_id m" "it \<in> set INVENTORY"
    by (auto simp: find_Some_iff in_set_conv_nth)
  then have "match_id m \<in> set VALID_IDS"
    unfolding VALID_IDS_def by (metis imageI set_map)
  with \<open>item_id it = match_id m\<close> r show ?thesis by simp
qed

lemma find_item_None:
  "find (\<lambda>inv. item_id inv = i) INVENTORY = None \<longleftrightarrow> i \<notin> set VALID_IDS"
  by (auto simp: find_None_iff VALID_IDS_def)

lemma to_result_None:
  "to_result m = None \<longleftrightarrow> match_id m \<notin> set VALID_IDS"
  using find_item_None [of "match_id m"]
  by (cases "find (\<lambda>inv. item_id inv = match_id m) INVENTORY") (simp_all add: to_result_def)

lemma assemble_Nil: "assemble [] = []"
  by (simp add: assemble_def)

lemma assemble_Cons:
  "assemble (m # ms) = (case to_result m of None \<Rightarrow> assemble ms | Some r \<Rightarrow> r # assemble ms)"
  by (simp add: assemble_def split: option.splits)

lemma assemble_ids:
  "r \<in> set (assemble ms) \<Longrightarrow> item_id r \<in> set VALID_IDS"
  by (induction ms) (auto simp: assemble_Nil assemble_Cons dest: to_result_Some split: option.splits)

lemma VALID_IDS_set: "set VALID_IDS = {1, 2, 3, 4, 5}"
  by (auto simp: VALID_IDS_def INVENTORY_def)

text \<open>
  C1. Whatever the raw text of the model (and whatever candidate list a parser could
  hand to the validation), every match the sanitizer returns has an id in \<open>VALID_IDS\<close>,
  in the strict branch and in the fallback filter alike. The assembler drops every match
  whose id is not in the inventory by itself, for any list of matches it is given. Hence
  every result of a 200 response of the handler has an id in \<open>VALID_IDS\<close>, which is
  \<open>{1, 2, 3, 4, 5}\<close>.
\<close>

theorem only_inventory_ids:
  "(\<forall>a \<in> set (validate_candidate candidate). match_id a \<in> set VALID_IDS)
   \<and> (\<forall>a \<in> set (sanitize raw). match_id a \<in> set VALID_IDS)
   \<and> (\<forall>r \<in> set (assemble ms). item_id r \<in> set VALID_IDS)
   \<and> (\<forall>rs. response (POST generateContent now req m) = Results rs
          \<longrightarrow> (\<forall>r \<in> set rs. item_id r \<in> set VALID_IDS))
   \<and> set VALID_IDS = {1, 2, 3, 4, 5}"
proof -
  have post: "\<forall>r \<in> set rs. item_id r \<in> set VALID_IDS"
    if "response (POST generateContent now req m) = Results rs" for rs
  proof -
    from that have "\<exists>ms. rs = assemble ms"
      by (auto simp: POST_def Let_def split: prod.splits bool.splits sum.splits gateway.splits if_splits)
    then show ?thesis using assemble_ids by blast
  qed
  show ?thesis
    using validate_candidate_ids sanitize_ids assemble_ids post VALID_IDS_set by blast
qed

theorem only_inventory_ids_witness:
  \<open>sanitize (js ''[{"id":7,"reason":"q"},{"id":3,"reason":"ok"}]'') = [\<lparr>match_id = 3, match_reason = js ''ok''\<rparr>]
   \<and> match_id \<lparr>match_id = 3, match_reason = js ''ok''\<rparr> \<in> set VALID_IDS
   \<and> map item_id (assemble [\<lparr>match_id = 9, match_reason = js ''a''\<rparr>, \<lparr>match_id = 2, match_reason = js ''b''\<rparr>]) = [2]\<close>
  using only_inventory_ids [where raw = \<open>js ''[{"id":7,"reason":"q"},{"id":3,"reason":"ok"}]''\<close>]
  by (simp add: parser_eval sanitize_eval handler_eval)

subsection \<open>The sanitizer on the examples of the specification\<close>

text \<open>
  C3. The raw text \<^verbatim>\<open>[{"id":1,"reason":"x"},{"id":99,"reason":"y"},{"id":"bad"}]\<close> parses to an
  array of three objects; the strict schema fails on the list as a whole, the fallback
  filter keeps the first element only, and the sanitizer returns exactly the match with
  id 1 and reason \<open>x\<close>.
\<close>

theorem partial_failure_example:
  \<open>JSON_parse (js ''[{"id":1,"reason":"x"},{"id":99,"reason":"y"},{"id":"bad"}]'')
     = Inr (JArray [JObject [(js ''id'', JNumber (Finite 1)), (js ''reason'', JString (js ''x''))],
                    JObject [(js ''id'', JNumber (Finite 99)), (js ''reason'', JString (js ''y''))],
                    JObject [(js ''id'', JString (js ''bad''))]])
   \<and> AiMatchSchema [JObject [(js ''id'', JNumber (Finite 1)), (js ''reason'', JString (js ''x''))],
                    JObject [(js ''id'', JNumber (Finite 99)), (js ''reason'', JString (js ''y''))],
                    JObject [(js ''id'', JString (js ''bad''))]] = None
   \<and> filter lenient [JObject [(js ''id'', JNumber (Finite 1)), (js ''reason'', JString (js ''x''))],
                    JObject [(js ''id'', JNumber (Finite 99)), (js ''reason'', JString (js ''y''))],
                    JObject [(js ''id'', JString (js ''bad''))]]
     = [JObject [(js ''id'', JNumber (Finite 1)), (js ''reason'', JString (js ''x''))]]
   \<and> sanitize (js ''[{"id":1,"reason":"x"},{"id":99,"reason":"y"},{"id":"bad"}]'')
     = [\<lparr>match_id = 1, match_reason = js ''x''\<rparr>]\<close>
  by (simp add: parser_eval sanitize_eval)

text \<open>
  C2 fails on the code. The strict schema asks for a non-empty \<open>reason\<close> (\<open>min(1)\<close>)
  and so rejects the list parsed from \<^verbatim>\<open>[{"id":1,"reason":""}]\<close>; the fallback filter then
  only asks that \<open>reason\<close> is a string, keeps the element, and the handler answers with a
  result whose \<open>reason\<close> is the empty string.
\<close>

theorem empty_reason_emitted:
  \<open>AiMatchSchema [JObject [(js ''id'', JNumber (Finite 1)), (js ''reason'', JString [])]] = None
   \<and> sanitize (js ''[{"id":1,"reason":""}]'') = [\<lparr>match_id = 1, match_reason = []\<rparr>]
   \<and> response (POST (\<lambda>prompt. Text (js ''[{"id":1,"reason":""}]'')) 0
         \<lparr>x_forwarded_for = None, x_real_ip = None,
          json_body = Some (JObject [(js ''prompt'', JString (js ''tea''))])\<rparr> Map.empty)
     = Results [\<lparr>item_id = 1, title = js ''High-Altitude Tea Trails'', location = js ''Nuwara Eliya'',
                 price = 120, tags = [js ''cold'', js ''nature'', js ''hiking''], reason = []\<rparr>]\<close>
  by (simp add: parser_eval sanitize_eval handler_eval)

text \<open>
  The exceptions of the \<open>try\<close> block: the SyntaxError of \<open>JSON.parse\<close>, and the
  TypeError of \<open>Object.values\<close> when the text is the literal \<open>null\<close>.
\<close>

lemma try_sanitize_throws:
  "try_sanitize raw = Inl e \<longleftrightarrow>
     JSON_parse raw = Inl e \<or> (JSON_parse raw = Inr JNull \<and> e = TypeError)"
proof (cases "JSON_parse raw")
  case (Inl a)
  then show ?thesis by (simp add: try_sanitize_def)
next
  case (Inr v)
  then show ?thesis
    by (cases v) (auto simp: try_sanitize_def candidate_of_def split: option.splits json.splits)
qed

text \<open>
  C7. The sanitizer returns a list for every raw text: when the \<open>try\<close> block throws,
  whichever exception it is, the result is the empty list, and otherwise it is the list
  the block computed. In particular a text that does not parse as JSON gives the empty
  list, as \<^verbatim>\<open>not json\<close> does.
\<close>

theorem sanitize_never_throws:
  \<open>(try_sanitize raw = Inl e \<longrightarrow> sanitize raw = [])
   \<and> (JSON_parse raw = Inl e \<longrightarrow> sanitize raw = [])
   \<and> (try_sanitize raw = Inl e \<longleftrightarrow>
        JSON_parse raw = Inl e \<or> (JSON_parse raw = Inr JNull \<and> e = TypeError))
   \<and> (\<exists>aiMatches. sanitize raw = aiMatches
        \<and> (case try_sanitize raw of Inl _ \<Rightarrow> aiMatches = [] | Inr ms \<Rightarrow> aiMatches = ms))
   \<and> JSON_parse (js ''not json'') = Inl SyntaxError
   \<and> sanitize (js ''not json'') = []\<close>
proof -
  have a: "try_sanitize raw = Inl e \<longrightarrow> sanitize raw = []"
    by (simp add: sanitize_def)
  have b: "JSON_parse raw = Inl e \<longrightarrow> sanitize raw = []"
    by (simp add: sanitize_def try_sanitize_def)
  have c: "\<exists>aiMatches. sanitize raw = aiMatches
        \<and> (case try_sanitize raw of Inl _ \<Rightarrow> aiMatches = [] | Inr ms \<Rightarrow> aiMatches = ms)"
    by (simp add: sanitize_def split: sum.splits)
  have d: "JSON_parse (js ''not json'') = Inl SyntaxError"
    by (simp add: parser_eval)
  have e: "sanitize (js ''not json'') = []"
    by (simp add: sanitize_def try_sanitize_def d)
  show ?thesis
    using a b c d e try_sanitize_throws [of raw e] by blast
qed

theorem sanitize_never_throws_witness:
  \<open>JSON_parse (js ''{"id":1,'') = Inl SyntaxError \<and> sanitize (js ''{"id":1,'') = []
   \<and> try_sanitize (js ''null'') = Inl TypeError \<and> sanitize (js ''null'') = []\<close>
proof -
  have p: \<open>JSON_parse (js ''{"id":1,'') = Inl SyntaxError\<close>
    by (simp add: parser_eval)
  have q: \<open>try_sanitize (js ''null'') = Inl TypeError\<close>
    by (simp add: parser_eval try_sanitize_def candidate_of_def)
  show ?thesis
    using p q sanitize_never_throws [of \<open>js ''{"id":1,''\<close> SyntaxError]
      sanitize_never_throws [of \<open>js ''null''\<close> TypeError]
    by simp
qed


subsection \<open>The candidate list\<close>

lemma find_first_array:
  "\<forall>v \<in> set pre. \<not> isArray v \<Longrightarrow> find isArray (pre @ JArray xs # post) = Some (JArray xs)"
  by (induction pre) auto

lemma validate_candidate_Nil: "validate_candidate [] = []"
  by (simp add: validate_candidate_def AiMatchSchema_def)

lemma candidate_of_spec:
  "candidate_of v = (if v = JNull then Inl TypeError else Inr (spec_candidate v))"
proof (cases v)
  case (JString s)
  have "find isArray (map (\<lambda>c. JString [c]) s) = None" by (simp add: find_None_iff)
  with JString show ?thesis by (simp add: candidate_of_def spec_candidate_def)
next
  case (JObject ps)
  then show ?thesis
    by (auto simp: candidate_of_def spec_candidate_def split: option.splits json.splits)
qed (simp_all add: candidate_of_def spec_candidate_def)

text \<open>
  C8. For every raw text that parses, the sanitizer returns the validation of the
  candidate list the specification describes: the parsed array itself; for an object the
  first array among its values, in the order \<open>Object.values\<close> gives them, and the empty
  list when no value is an array; the empty list for a boolean, a number or a string.
  For \<open>null\<close> the call \<open>Object.values(null)\<close> throws and the \<open>catch\<close> returns the empty
  list of matches, which is what the validation of an empty candidate list returns. The
  raw text \<^verbatim>\<open>{"matches":[{"id":2,"reason":"z"}]}\<close> yields exactly the match with id 2 and
  reason \<open>z\<close>.
\<close>

theorem envelope_candidate:
  \<open>(JSON_parse raw = Inr v \<longrightarrow> sanitize raw = validate_candidate (spec_candidate v))
   \<and> candidate_of (JArray xs) = Inr xs
   \<and> ((\<forall>p \<in> set pre. \<not> isArray (snd p))
        \<longrightarrow> candidate_of (JObject (pre @ (k, JArray xs) # post)) = Inr xs)
   \<and> ((\<forall>p \<in> set ps. \<not> isArray (snd p)) \<longrightarrow> candidate_of (JObject ps) = Inr [])
   \<and> candidate_of (JBool b) = Inr [] \<and> candidate_of (JNumber n) = Inr []
   \<and> candidate_of (JString s) = Inr []
   \<and> (JSON_parse raw = Inr JNull \<longrightarrow> sanitize raw = validate_candidate [])
   \<and> sanitize (js ''{"matches":[{"id":2,"reason":"z"}]}'') = [\<lparr>match_id = 2, match_reason = js ''z''\<rparr>]\<close>
proof -
  have obj1: "candidate_of (JObject (pre @ (k, JArray xs) # post)) = Inr xs"
    if "\<forall>p \<in> set pre. \<not> isArray (snd p)"
  proof -
    from that have "\<forall>v \<in> set (map snd pre). \<not> isArray v" by simp
    then have "find isArray (map snd pre @ JArray xs # map snd post) = Some (JArray xs)"
      by (rule find_first_array)
    then show ?thesis by (simp add: candidate_of_def)
  qed
  have obj0: "candidate_of (JObject ps) = Inr []" if "\<forall>p \<in> set ps. \<not> isArray (snd p)"
  proof -
    from that have "find isArray (map snd ps) = None" by (simp add: find_None_iff)
    then show ?thesis by (simp add: candidate_of_def)
  qed
  have null: "sanitize raw = validate_candidate []" if "JSON_parse raw = Inr JNull"
    using that by (simp add: validate_candidate_Nil sanitize_def try_sanitize_def candidate_of_spec)
  have gen: "sanitize raw = validate_candidate (spec_candidate v)" if "JSON_parse raw = Inr v"
  proof (cases "v = JNull")
    case True
    with that null show ?thesis by (simp add: spec_candidate_def)
  next
    case False
    with that show ?thesis by (simp add: sanitize_def try_sanitize_def candidate_of_spec)
  qed
  have ex: \<open>sanitize (js ''{"matches":[{"id":2,"reason":"z"}]}'') = [\<lparr>match_id = 2, match_reason = js ''z''\<rparr>]\<close>
    by (simp add: parser_eval sanitize_eval)
  have simple: "candidate_of (JArray xs) = Inr xs" "candidate_of (JBool b) = Inr []"
    "candidate_of (JNumber n) = Inr []" "candidate_of (JString s) = Inr []"
    by (simp_all add: candidate_of_spec spec_candidate_def)
  show ?thesis
    using obj1 obj0 null gen ex simple by blast
qed

theorem envelope_candidate_witness:
  \<open>candidate_of (JObject [(js ''note'', JString (js ''two'')), (js ''matches'', JArray [JNull]),
                           (js ''more'', JArray [])]) = Inr [JNull]
   \<and> candidate_of (JObject [(js ''note'', JNumber (Finite 3))]) = Inr []
   \<and> sanitize (js ''{"a":1,"matches":[{"id":5,"reason":"view"}],"b":[]}'')
      = [\<lparr>match_id = 5, match_reason = js ''view''\<rparr>]
   \<and> sanitize (js ''null'') = []\<close>
proof -
  let ?m = \<open>JObject [(js ''id'', JNumber (Finite 5)), (js ''reason'', JString (js ''view''))]\<close>
  let ?v = \<open>JObject [(js ''a'', JNumber (Finite 1)), (js ''matches'', JArray [?m]), (js ''b'', JArray [])]\<close>
  have n: \<open>JSON_parse (js ''null'') = Inr JNull\<close>
    by (simp add: parser_eval)
  have p: \<open>JSON_parse (js ''{"a":1,"matches":[{"id":5,"reason":"view"}],"b":[]}'') = Inr ?v\<close>
    by (simp add: parser_eval)
  have c: \<open>spec_candidate ?v = [?m]\<close>
    by (simp add: spec_candidate_def)
  have v: \<open>validate_candidate [?m] = [\<lparr>match_id = 5, match_reason = js ''view''\<rparr>]\<close>
    by (simp add: sanitize_eval js_def)
  have w1: \<open>candidate_of (JObject [(js ''note'', JString (js ''two'')), (js ''matches'', JArray [JNull]),
                           (js ''more'', JArray [])]) = Inr [JNull]\<close>
    using envelope_candidate [where pre = \<open>[(js ''note'', JString (js ''two''))]\<close>
        and k = \<open>js ''matches''\<close> and xs = \<open>[JNull]\<close> and post = \<open>[(js ''more'', JArray [])]\<close>]
    by simp
  have w2: \<open>candidate_of (JObject [(js ''note'', JNumber (Finite 3))]) = Inr []\<close>
    using envelope_candidate [where ps = \<open>[(js ''note'', JNumber (Finite 3))]\<close>]
    by simp
  have w3: \<open>sanitize (js ''{"a":1,"matches":[{"id":5,"reason":"view"}],"b":[]}'')
      = [\<lparr>match_id = 5, match_reason = js ''view''\<rparr>]\<close>
    using envelope_candidate [where raw = \<open>js ''{"a":1,"matches":[{"id":5,"reason":"view"}],"b":[]}''\<close>
        and v = ?v] p
    by (simp only: c v simp_thms)
  have w4: \<open>sanitize (js ''null'') = []\<close>
    using envelope_candidate [where raw = \<open>js ''null''\<close>] n
    by (simp only: validate_candidate_Nil simp_thms)
  show ?thesis
    using w1 w2 w3 w4 by simp
qed

subsection \<open>The assembler keeps the order of the matches\<close>

text \<open>
  C9. For every list of matches, the ids and reasons of the assembled results are those
  of the matches whose id is in the inventory, in the order of the matches: dropping the
  unknown ids reorders nothing, and the order is not that of the catalog (the matches
  4, 42, 1 give the results 4, 1).
\<close>

theorem assemble_keeps_order:
  "map (\<lambda>r. (item_id r, reason r)) (assemble aiMatches)
     = map (\<lambda>a. (match_id a, match_reason a)) (filter (\<lambda>a. match_id a \<in> set VALID_IDS) aiMatches)
   \<and> map item_id (assemble [\<lparr>match_id = 4, match_reason = js ''surf''\<rparr>,
                              \<lparr>match_id = 42, match_reason = js ''none''\<rparr>,
                              \<lparr>match_id = 1, match_reason = js ''tea''\<rparr>]) = [4, 1]"
proof -
  have "map (\<lambda>r. (item_id r, reason r)) (assemble ms)
     = map (\<lambda>a. (match_id a, match_reason a)) (filter (\<lambda>a. match_id a \<in> set VALID_IDS) ms)" for ms
  proof (induction ms)
    case Nil
    show ?case by (simp add: assemble_Nil)
  next
    case (Cons a ms)
    show ?case
    proof (cases "to_result a")
      case None
      then have "match_id a \<notin> set VALID_IDS" by (simp add: to_result_None)
      with None Cons show ?thesis by (simp add: assemble_Cons)
    next
      case (Some r)
      then have "item_id r = match_id a" "reason r = match_reason a" "match_id a \<in> set VALID_IDS"
        using to_result_Some by blast+
      with Some Cons show ?thesis by (simp add: assemble_Cons)
    qed
  qed
  moreover have "map item_id (assemble [\<lparr>match_id = 4, match_reason = js ''surf''\<rparr>,
                              \<lparr>match_id = 42, match_reason = js ''none''\<rparr>,
                              \<lparr>match_id = 1, match_reason = js ''tea''\<rparr>]) = [4, 1]"
    by (simp add: assemble_def to_result_def INVENTORY_def)
  ultimately show ?thesis by blast
qed

theorem assemble_keeps_order_witness:
  "map (\<lambda>r. (item_id r, reason r))
     (assemble [\<lparr>match_id = 5, match_reason = js ''e''\<rparr>, \<lparr>match_id = 0, match_reason = js ''x''\<rparr>,
                \<lparr>match_id = 2, match_reason = js ''b''\<rparr>, \<lparr>match_id = 5, match_reason = js ''again''\<rparr>])
   = [(5, js ''e''), (2, js ''b''), (5, js ''again'')]"
  using assemble_keeps_order [where aiMatches = "[\<lparr>match_id = 5, match_reason = js ''e''\<rparr>,
      \<lparr>match_id = 0, match_reason = js ''x''\<rparr>, \<lparr>match_id = 2, match_reason = js ''b''\<rparr>,
      \<lparr>match_id = 5, match_reason = js ''again''\<rparr>]"]
  by (simp add: VALID_IDS_set)

subsection \<open>The handler\<close>

lemma POST_limited:
  "fst (isRateLimited (client_ip req) now m) \<Longrightarrow>
   POST generateContent now req m
     = \<lparr>response = Error 429 (js ''Too many requests. Please wait a moment before trying again.''),
        limiter = snd (isRateLimited (client_ip req) now m), gateway_calls = []\<rparr>"
  by (cases "isRateLimited (client_ip req) now m") (simp add: POST_def)

lemma POST_invalid:
  "\<not> fst (isRateLimited (client_ip req) now m) \<Longrightarrow>
   RequestSchema (case json_body req of None \<Rightarrow> JObject [] | Some b \<Rightarrow> b) = Inl message \<Longrightarrow>
   POST generateContent now req m
     = \<lparr>response = Error 400 message, limiter = snd (isRateLimited (client_ip req) now m),
        gateway_calls = []\<rparr>"
  by (cases "isRateLimited (client_ip req) now m") (simp add: POST_def)

lemma POST_limiter:
  "limiter (POST generateContent now req m) = snd (isRateLimited (client_ip req) now m)"
  by (cases "isRateLimited (client_ip req) now m")
    (auto simp: POST_def Let_def split: bool.splits sum.splits gateway.splits)

lemma POST_400:
  assumes "response (POST generateContent now req m) = Error 400 message"
  shows "\<not> fst (isRateLimited (client_ip req) now m)
         \<and> RequestSchema (case json_body req of None \<Rightarrow> JObject [] | Some b \<Rightarrow> b) = Inl message"
  using assms
  by (cases "isRateLimited (client_ip req) now m")
    (auto simp: POST_def Let_def split: bool.splits sum.splits gateway.splits)

lemma isRateLimited_allowed_entry:
  "\<not> fst (isRateLimited ip now m) \<Longrightarrow>
   snd (isRateLimited ip now m) ip
     = Some (case m ip of
               None \<Rightarrow> \<lparr>count = 1, windowStart = now\<rparr>
             | Some e \<Rightarrow> if now - windowStart e > RATE_WINDOW_MS
                         then \<lparr>count = 1, windowStart = now\<rparr>
                         else e\<lparr>count := count e + 1\<rparr>)"
  by (simp add: isRateLimited_def split: option.splits if_splits)

text \<open>
  The end-to-end example of the specification: the gateway answers
  \<^verbatim>\<open>[{"id":4,"reason":"matches beach and budget"}]\<close> and the handler returns item 4 with that
  reason; an empty array gives an empty list of results.
\<close>

lemma POST_end_to_end:
  \<open>response (POST (\<lambda>prompt. Text (js ''[{"id":4,"reason":"matches beach and budget"}]'')) 0
       \<lparr>x_forwarded_for = None, x_real_ip = None,
        json_body = Some (JObject [(js ''prompt'', JString (js ''a chilled beach weekend under $100''))])\<rparr>
       Map.empty)
   = Results [\<lparr>item_id = 4, title = js ''Surf & Chill Retreat'', location = js ''Arugam Bay'',
               price = 80, tags = [js ''beach'', js ''surfing'', js ''young-vibe''],
               reason = js ''matches beach and budget''\<rparr>]\<close>
  \<open>response (POST (\<lambda>prompt. NoText) 0
       \<lparr>x_forwarded_for = None, x_real_ip = None,
        json_body = Some (JObject [(js ''prompt'', JString (js ''anything''))])\<rparr> Map.empty)
   = Results []\<close>
  by (simp_all add: parser_eval sanitize_eval handler_eval)

text \<open>
  C10. The handler consults the rate limiter first: whatever the request and the
  gateway, the map after the call is the map \<open>isRateLimited\<close> returns for the client,
  and a rate-limited request is answered 429 whatever its body. So when the answer is
  the 400 of a validation error, the client's entry has been created or reset (count 1)
  or its count incremented.
\<close>

theorem validation_failure_consumes_quota:
  "limiter (POST generateContent now req m) = snd (isRateLimited (client_ip req) now m)
   \<and> (fst (isRateLimited (client_ip req) now m) \<longrightarrow>
        response (POST generateContent now req m)
          = Error 429 (js ''Too many requests. Please wait a moment before trying again.''))
   \<and> (response (POST generateContent now req m) = Error 400 message \<longrightarrow>
        limiter (POST generateContent now req m) (client_ip req)
          = Some (case m (client_ip req) of
                    None \<Rightarrow> \<lparr>count = 1, windowStart = now\<rparr>
                  | Some e \<Rightarrow> if now - windowStart e > RATE_WINDOW_MS
                              then \<lparr>count = 1, windowStart = now\<rparr>
                              else e\<lparr>count := count e + 1\<rparr>))"
proof -
  have a: "limiter (POST generateContent now req m) = snd (isRateLimited (client_ip req) now m)"
    by (rule POST_limiter)
  have b: "response (POST generateContent now req m)
          = Error 429 (js ''Too many requests. Please wait a moment before trying again.'')"
    if "fst (isRateLimited (client_ip req) now m)"
    using POST_limited [OF that, of generateContent] by simp
  have c: "limiter (POST generateContent now req m) (client_ip req)
          = Some (case m (client_ip req) of
                    None \<Rightarrow> \<lparr>count = 1, windowStart = now\<rparr>
                  | Some e \<Rightarrow> if now - windowStart e > RATE_WINDOW_MS
                              then \<lparr>count = 1, windowStart = now\<rparr>
                              else e\<lparr>count := count e + 1\<rparr>)"
    if "response (POST generateContent now req m) = Error 400 message"
  proof -
    from that have "\<not> fst (isRateLimited (client_ip req) now m)"
      using POST_400 by blast
    then show ?thesis
      using isRateLimited_allowed_entry [of "client_ip req" now m] by (simp add: a)
  qed
  show ?thesis using a b c by blast
qed

theorem validation_failure_consumes_quota_witness:
  "(let bad = \<lparr>x_forwarded_for = Some (js ''198.51.100.4, 10.0.0.1''), x_real_ip = None,
               json_body = Some (JObject [])\<rparr>;
        good = \<lparr>x_forwarded_for = None, x_real_ip = Some (js ''198.51.100.4''),
                json_body = Some (JObject [(js ''prompt'', JString (js ''beach''))])\<rparr>;
        g = (\<lambda>prompt. Text (js ''[]''));
        e = Error 400 (js ''prompt is required'');
        o1 = POST g 1000 bad Map.empty;
        o2 = POST g 2000 bad (limiter o1);
        o3 = POST g 3000 bad (limiter o2);
        o4 = POST g 4000 bad (limiter o3);
        o5 = POST g 5000 bad (limiter o4);
        o6 = POST g 6000 good (limiter o5)
    in map response [o1, o2, o3, o4, o5] = [e, e, e, e, e]
       \<and> limiter o5 (js ''198.51.100.4'') = Some \<lparr>count = 5, windowStart = 1000\<rparr>
       \<and> response o6 = Error 429 (js ''Too many requests. Please wait a moment before trying again.'')
       \<and> gateway_calls o6 = [])"
proof -
  let ?bad = "\<lparr>x_forwarded_for = Some (js ''198.51.100.4, 10.0.0.1''), x_real_ip = None,
               json_body = Some (JObject [])\<rparr>"
  let ?good = "\<lparr>x_forwarded_for = None, x_real_ip = Some (js ''198.51.100.4''),
                json_body = Some (JObject [(js ''prompt'', JString (js ''beach''))])\<rparr>"
  let ?g = "\<lambda>prompt :: jsstring. Text (js ''[]'')"
  let ?e = "Error 400 (js ''prompt is required'')"
  let ?ip = "js ''198.51.100.4''"
  let ?m = "\<lambda>c. [?ip \<mapsto> \<lparr>count = c, windowStart = 1000\<rparr>]"
  have ip: "client_ip ?bad = ?ip"
    by (simp add: client_ip_def trim_def is_space_def js_def ch_def)
  have ip': "client_ip ?good = ?ip"
    by (simp add: client_ip_def)
  have body: "RequestSchema (JObject []) = Inl (js ''prompt is required'')"
    by (simp add: RequestSchema_def)
  have step: "POST ?g t ?bad (?m c) = \<lparr>response = ?e, limiter = ?m (c + 1), gateway_calls = []\<rparr>"
    if "t - 1000 \<le> RATE_WINDOW_MS" "c < RATE_LIMIT" for t c
  proof -
    have "isRateLimited ?ip t (?m c) = (False, ?m (c + 1))"
      using that by (simp add: isRateLimited_def)
    then have "\<not> fst (isRateLimited (client_ip ?bad) t (?m c))"
      and l: "snd (isRateLimited (client_ip ?bad) t (?m c)) = ?m (c + 1)"
      by (simp_all add: ip)
    then show ?thesis
      using POST_invalid [of ?bad t "?m c" "js ''prompt is required''" ?g] body by simp
  qed
  have o1: "POST ?g 1000 ?bad Map.empty = \<lparr>response = ?e, limiter = ?m 1, gateway_calls = []\<rparr>"
  proof -
    have "isRateLimited (client_ip ?bad) 1000 Map.empty = (False, ?m 1)"
      by (simp add: ip isRateLimited_def)
    then show ?thesis
      using POST_invalid [of ?bad 1000 Map.empty "js ''prompt is required''" ?g] body by simp
  qed
  have o2: "POST ?g 2000 ?bad (?m 1) = \<lparr>response = ?e, limiter = ?m 2, gateway_calls = []\<rparr>"
    using step [of 2000 1] by (simp add: RATE_WINDOW_MS_def RATE_LIMIT_def)
  have o3: "POST ?g 3000 ?bad (?m 2) = \<lparr>response = ?e, limiter = ?m 3, gateway_calls = []\<rparr>"
    using step [of 3000 2] by (simp add: RATE_WINDOW_MS_def RATE_LIMIT_def)
  have o4: "POST ?g 4000 ?bad (?m 3) = \<lparr>response = ?e, limiter = ?m 4, gateway_calls = []\<rparr>"
    using step [of 4000 3] by (simp add: RATE_WINDOW_MS_def RATE_LIMIT_def)
  have o5: "POST ?g 5000 ?bad (?m 4) = \<lparr>response = ?e, limiter = ?m 5, gateway_calls = []\<rparr>"
    using step [of 5000 4] by (simp add: RATE_WINDOW_MS_def RATE_LIMIT_def)
  have full: "fst (isRateLimited (client_ip ?good) 6000 (?m 5))"
    by (simp add: ip' isRateLimited_def RATE_WINDOW_MS_def RATE_LIMIT_def)
  have o6: "response (POST ?g 6000 ?good (?m 5))
              = Error 429 (js ''Too many requests. Please wait a moment before trying again.'')"
    using validation_failure_consumes_quota [where generateContent = ?g and now = 6000
        and req = ?good and m = "?m 5"] full
    by simp
  have o6': "gateway_calls (POST ?g 6000 ?good (?m 5)) = []"
    using POST_limited [OF full, of ?g] by simp
  show ?thesis
    unfolding Let_def by (simp add: o1 o2 o3 o4 o5 o6 o6')
qed

text \<open>
  C6. A body whose \<open>prompt\<close> is a string of 1 to 500 code units is accepted with that
  prompt; the empty prompt, a prompt of more than 500 code units and a body without
  \<open>prompt\<close> are each rejected with their own message. When the client is not rate
  limited, a rejected body is answered 400 with that message and the gateway is not
  called, and an accepted one passes the prompt to the gateway.
\<close>

theorem prompt_validation:
  "(get_prop body (js ''prompt'') = Some (JString p) \<and> 1 \<le> length p \<and> length p \<le> 500
      \<longrightarrow> RequestSchema body = Inr p)
   \<and> (get_prop body (js ''prompt'') = Some (JString [])
      \<longrightarrow> RequestSchema body = Inl (js ''prompt cannot be empty''))
   \<and> (get_prop body (js ''prompt'') = Some (JString p) \<and> length p > 500
      \<longrightarrow> RequestSchema body = Inl (js ''prompt must be 500 characters or fewer''))
   \<and> (map_of ps (js ''prompt'') = None
      \<longrightarrow> RequestSchema (JObject ps) = Inl (js ''prompt is required''))
   \<and> (\<not> fst (isRateLimited (client_ip req) now m)
       \<and> RequestSchema (case json_body req of None \<Rightarrow> JObject [] | Some b \<Rightarrow> b) = Inl message
      \<longrightarrow> response (POST generateContent now req m) = Error 400 message
          \<and> gateway_calls (POST generateContent now req m) = [])
   \<and> (\<not> fst (isRateLimited (client_ip req) now m)
       \<and> RequestSchema (case json_body req of None \<Rightarrow> JObject [] | Some b \<Rightarrow> b) = Inr p
      \<longrightarrow> gateway_calls (POST generateContent now req m) = [p])"
proof -
  have obj: "\<exists>ps. body = JObject ps \<and> map_of ps (js ''prompt'') = Some v"
    if "get_prop body (js ''prompt'') = Some v" for v
    using that by (cases body) simp_all
  have a: "RequestSchema body = Inr p"
    if "get_prop body (js ''prompt'') = Some (JString p) \<and> 1 \<le> length p \<and> length p \<le> 500"
    using that obj [of "JString p"] by (auto simp: RequestSchema_def)
  have b: "RequestSchema body = Inl (js ''prompt cannot be empty'')"
    if "get_prop body (js ''prompt'') = Some (JString [])"
    using that obj [of "JString []"] by (auto simp: RequestSchema_def)
  have c: "RequestSchema body = Inl (js ''prompt must be 500 characters or fewer'')"
    if "get_prop body (js ''prompt'') = Some (JString p) \<and> length p > 500"
    using that obj [of "JString p"] by (auto simp: RequestSchema_def)
  have d: "RequestSchema (JObject ps) = Inl (js ''prompt is required'')"
    if "map_of ps (js ''prompt'') = None"
    using that by (simp add: RequestSchema_def)
  have e: "response (POST generateContent now req m) = Error 400 message
          \<and> gateway_calls (POST generateContent now req m) = []"
    if "\<not> fst (isRateLimited (client_ip req) now m)
       \<and> RequestSchema (case json_body req of None \<Rightarrow> JObject [] | Some b \<Rightarrow> b) = Inl message"
    using that POST_invalid [of req now m message generateContent] by simp
  have f: "gateway_calls (POST generateContent now req m) = [p]"
    if "\<not> fst (isRateLimited (client_ip req) now m)
       \<and> RequestSchema (case json_body req of None \<Rightarrow> JObject [] | Some b \<Rightarrow> b) = Inr p"
    using that
    by (cases "isRateLimited (client_ip req) now m")
      (auto simp: POST_def Let_def split: gateway.splits)
  show ?thesis using a b c d e f by blast
qed

theorem prompt_validation_witness:
  "RequestSchema (JObject [(js ''prompt'', JString (replicate 500 (ch CHR ''a'')))])
     = Inr (replicate 500 (ch CHR ''a''))
   \<and> RequestSchema (JObject [(js ''prompt'', JString (js ''a''))]) = Inr (js ''a'')
   \<and> RequestSchema (JObject [(js ''prompt'', JString [])]) = Inl (js ''prompt cannot be empty'')
   \<and> RequestSchema (JObject [(js ''prompt'', JString (replicate 501 (ch CHR ''a'')))])
     = Inl (js ''prompt must be 500 characters or fewer'')
   \<and> RequestSchema (JObject [(js ''query'', JString (js ''a''))]) = Inl (js ''prompt is required'')
   \<and> response (POST (\<lambda>prompt. Text (js ''[]'')) 0
         \<lparr>x_forwarded_for = None, x_real_ip = None, json_body = None\<rparr> Map.empty)
     = Error 400 (js ''prompt is required'')
   \<and> gateway_calls (POST (\<lambda>prompt. Text (js ''[]'')) 0
         \<lparr>x_forwarded_for = None, x_real_ip = None, json_body = None\<rparr> Map.empty) = []"
proof -
  let ?req = "\<lparr>x_forwarded_for = None, x_real_ip = None, json_body = None\<rparr>"
  let ?g = "\<lambda>prompt :: jsstring. Text (js ''[]'')"
  have w1: "RequestSchema (JObject [(js ''prompt'', JString (replicate 500 (ch CHR ''a'')))])
     = Inr (replicate 500 (ch CHR ''a''))"
    using prompt_validation [where body = "JObject [(js ''prompt'', JString (replicate 500 (ch CHR ''a'')))]"
        and p = "replicate 500 (ch CHR ''a'')"]
    by simp
  have w2: "RequestSchema (JObject [(js ''prompt'', JString (js ''a''))]) = Inr (js ''a'')"
    using prompt_validation [where body = "JObject [(js ''prompt'', JString (js ''a''))]" and p = "js ''a''"]
    by (simp add: js_def)
  have w3: "RequestSchema (JObject [(js ''prompt'', JString [])]) = Inl (js ''prompt cannot be empty'')"
    using prompt_validation [where body = "JObject [(js ''prompt'', JString [])]"]
    by simp
  have w4: "RequestSchema (JObject [(js ''prompt'', JString (replicate 501 (ch CHR ''a'')))])
     = Inl (js ''prompt must be 500 characters or fewer'')"
    using prompt_validation [where body = "JObject [(js ''prompt'', JString (replicate 501 (ch CHR ''a'')))]"
        and p = "replicate 501 (ch CHR ''a'')"]
    by simp
  have w5: "RequestSchema (JObject [(js ''query'', JString (js ''a''))]) = Inl (js ''prompt is required'')"
    using prompt_validation [where ps = "[(js ''query'', JString (js ''a''))]"]
    by (simp add: js_def)
  have w6: "RequestSchema (JObject []) = Inl (js ''prompt is required'')"
    using prompt_validation [where ps = "[]"] by simp
  have w7: "response (POST ?g 0 ?req Map.empty) = Error 400 (js ''prompt is required'')
            \<and> gateway_calls (POST ?g 0 ?req Map.empty) = []"
    using prompt_validation [where req = ?req and now = 0 and m = Map.empty
        and message = "js ''prompt is required''" and generateContent = ?g] w6
    by (simp add: client_ip_def isRateLimited_def)
  show ?thesis
    using w1 w2 w3 w4 w5 w7 by simp
qed

end
